theory Spec2Isabelle
  imports Complex_Main
begin

section \<open>Replica: data model (main.go)\<close>

text \<open>
  A decoded JSON value, as \<open>encoding/json\<close> hands it to the program when it decodes into
  \<open>interface{}\<close>: a number arrives as a \<open>float64\<close>. Every \<open>float64\<close> a JSON document
  can decode to is finite, hence a rational, so numbers carry a \<open>rat\<close>.
\<close>

datatype json = JNull | JBool bool | JNum rat | JStr string | JArr "json list"
  | JObj "(string \<times> json) list"

text \<open>
  The Go conversion \<open>int(amount)\<close> of a \<open>float64\<close>: the fraction is discarded (truncation
  towards zero). When the truncated value does not fit the 64-bit \<open>int\<close>, the language
  leaves the result to the implementation; \<open>ovf\<close> is that implementation-dependent result.
\<close>

definition trunc0 :: "rat \<Rightarrow> int" where
  "trunc0 x = (if 0 \<le> x then \<lfloor>x\<rfloor> else \<lceil>x\<rceil>)"

definition to_int :: "(rat \<Rightarrow> int) \<Rightarrow> rat \<Rightarrow> int" where
  "to_int ovf x =
     (if - (2 ^ 63) \<le> trunc0 x \<and> trunc0 x < 2 ^ 63 then trunc0 x else ovf x)"

text \<open>
  The implementation-dependent result on amd64, where the conversion instruction gives the
  least 64-bit integer for every value it cannot represent. It is used for concrete runs.
\<close>

definition ovf_amd64 :: "rat \<Rightarrow> int" where
  "ovf_amd64 x = - (2 ^ 63)"

text \<open>
  \<open>type Auction struct\<close>, without the mutex: every operation below is the body that runs
  while the lock is held, so operations are atomic steps on this record. Times are
  nanoseconds (\<open>time.Time\<close> as an instant, \<open>time.Duration\<close> as a length).
\<close>

record auction =
  startTime :: int
  duration :: int
  highestBid :: int
  highestBidder :: string
  bidders :: "string \<rightharpoonup> int"
  status :: string

text \<open>The package-level variable \<open>auction\<close>; \<open>now\<close> is what \<open>time.Now()\<close> returned.\<close>

definition init_auction :: "int \<Rightarrow> auction" where
  "init_auction now =
     \<lparr> startTime = now, duration = 100 * 1000000000, highestBid = 0,
       highestBidder = [], bidders = Map.empty, status = ''ongoing'' \<rparr>"

text \<open>
  An inbound request after routing: its method and what \<open>json.NewDecoder(r.Body).Decode\<close>
  into a \<open>map[string]interface{}\<close> gave (\<open>None\<close> when it returned an error).
\<close>

record request =
  Method :: string
  body :: "(string \<rightharpoonup> json) option"

datatype payload = TextBody string | JsonBody "string \<rightharpoonup> json"

record response =
  code :: nat
  payload :: payload

text \<open>The lines written to the replica's log, by call site.\<close>

datatype log_entry =
    LogDecodeFailed
  | LogInvalidBid
  | LogBidAuctionEnded string rat
  | LogBidNotHigher string rat int
  | LogBidSuccess string int
  | LogQuery string int string
  | LogAuctionEnded string int

definition http_error :: "string \<Rightarrow> nat \<Rightarrow> response" where
  "http_error msg c = \<lparr> code = c, payload = TextBody (msg @ [CHR 0x0A]) \<rparr>"

definition json_ok :: "(string \<rightharpoonup> json) \<Rightarrow> response" where
  "json_ok m = \<lparr> code = 200, payload = JsonBody m \<rparr>"

section \<open>Replica: operations\<close>

text \<open>
  \<open>handleBid\<close> from the lock acquisition to its end (main.go lines 65 to 101): the
  operation the specification calls PlaceBid.
\<close>

definition placeBid ::
  "(rat \<Rightarrow> int) \<Rightarrow> auction \<Rightarrow> string \<Rightarrow> rat \<Rightarrow> auction \<times> response \<times> log_entry list" where
  "placeBid ovf a name amount =
     (if status a = ''ended'' then
        (a, json_ok [''outcome'' \<mapsto> JStr ''auction ended''], [LogBidAuctionEnded name amount])
      else
        let a1 = (if bidders a name = None then a\<lparr>bidders := (bidders a)(name \<mapsto> 0)\<rparr> else a)
        in if to_int ovf amount \<le> highestBid a1 then
             (a1,
              json_ok [''outcome'' \<mapsto> JStr ''fail'',
                       ''reason'' \<mapsto> JStr ''bid must be higher than current highest bid''],
              [LogBidNotHigher name amount (highestBid a1)])
           else
             (a1\<lparr> highestBid := to_int ovf amount, highestBidder := name,
                  bidders := (bidders a1)(name \<mapsto> to_int ovf amount) \<rparr>,
              json_ok [''outcome'' \<mapsto> JStr ''success''],
              [LogBidSuccess name (to_int ovf amount)]))"

text \<open>\<open>handleBid\<close>: the method check, the decoding and the two type assertions, then PlaceBid.\<close>

definition handleBid ::
  "(rat \<Rightarrow> int) \<Rightarrow> auction \<Rightarrow> request \<Rightarrow> auction \<times> response \<times> log_entry list" where
  "handleBid ovf a r =
     (if Method r \<noteq> ''POST'' then (a, http_error ''Invalid method'' 405, [])
      else case body r of
        None \<Rightarrow> (a, http_error ''Invalid request'' 400, [LogDecodeFailed])
      | Some m \<Rightarrow>
          (case (m ''name'', m ''amount'') of
             (Some (JStr name), Some (JNum amount)) \<Rightarrow> placeBid ovf a name amount
           | _ \<Rightarrow> (a, http_error ''Invalid name or amount'' 400, [LogInvalidBid])))"

text \<open>
  Arithmetic on \<open>float64\<close>, for \<open>Duration.Seconds\<close>: a result is rounded to the
  nearest value with a significand of 53 bits, ties to the even one. The values that occur
  below are 0 or lie between a billionth and \<open>2 ^ 34\<close>, far from overflow and from
  the subnormal range, so the exponent is not bounded here. \<open>binary_exponent x\<close> is the
  \<open>e\<close> with \<open>2 ^ e \<le> x < 2 ^ (e + 1)\<close> for a positive \<open>x\<close>.
\<close>

function bit_length :: "int \<Rightarrow> int" where
  "bit_length n = (if n \<le> 0 then 0 else 1 + bit_length (n div 2))"
  by pat_completeness auto
termination
  by (relation "measure nat") auto

declare bit_length.simps [simp del]

definition pow2 :: "int \<Rightarrow> rat" where
  "pow2 e = (if 0 \<le> e then 2 ^ nat e else 1 / 2 ^ nat (- e))"

definition binary_exponent :: "rat \<Rightarrow> int" where
  "binary_exponent x =
     (let d = bit_length (fst (quotient_of x)) - bit_length (snd (quotient_of x))
      in if pow2 d \<le> x then d else d - 1)"

definition round_half_even :: "rat \<Rightarrow> int" where
  "round_half_even q =
     (let f = \<lfloor>q\<rfloor>; r = q - of_int f
      in if r < 1 / 2 then f else if 1 / 2 < r then f + 1 else if even f then f else f + 1)"

definition float64 :: "rat \<Rightarrow> rat" where
  "float64 x =
     (if x = 0 then 0
      else let u = pow2 (binary_exponent \<bar>x\<bar> - 52) in of_int (round_half_even (x / u)) * u)"

text \<open>Go's integer quotient and remainder: the quotient is truncated towards zero.\<close>

definition quo :: "int \<Rightarrow> int \<Rightarrow> int" where
  "quo a b = sgn a * sgn b * (\<bar>a\<bar> div \<bar>b\<bar>)"

definition rem :: "int \<Rightarrow> int \<Rightarrow> int" where
  "rem a b = a - b * quo a b"

text \<open>
  \<open>Duration.Seconds\<close> for a duration of \<open>d\<close> nanoseconds, as the library computes it:
  \<open>sec := d / Second; nsec := d % Second; return float64(sec) + float64(nsec)/1e9\<close>.
  The two conversions of integers are exact; the quotient and the sum are rounded.
\<close>

definition seconds :: "int \<Rightarrow> rat" where
  "seconds d =
     float64 (of_int (quo d 1000000000) + float64 (of_int (rem d 1000000000) / 1000000000))"

text \<open>\<open>int(d.Seconds())\<close>: the value is always in the range of \<open>int\<close>.\<close>

definition whole_seconds :: "int \<Rightarrow> int" where
  "whole_seconds d = trunc0 (seconds d)"

text \<open>
  \<open>time.Since(t)\<close> at the clock reading \<open>now\<close>: the difference, kept within the range
  of a \<open>Duration\<close> (64 bits) by saturation.
\<close>

definition since :: "int \<Rightarrow> int \<Rightarrow> int" where
  "since now t = max (- (2 ^ 63)) (min (2 ^ 63 - 1) (now - t))"

text \<open>\<open>handleQuery\<close>; \<open>now\<close> is the clock reading that \<open>time.Since\<close> uses. It only reads.\<close>

definition handleQuery ::
  "auction \<Rightarrow> int \<Rightarrow> request \<Rightarrow> auction \<times> response \<times> log_entry list" where
  "handleQuery a now r =
     (if Method r \<noteq> ''GET'' then (a, http_error ''Invalid method'' 405, [])
      else
        let resp = [''status'' \<mapsto> JStr (status a),
                    ''highest_bid'' \<mapsto> JNum (of_int (highestBid a)),
                    ''highest_bidder'' \<mapsto> JStr (highestBidder a),
                    ''time_remaining'' \<mapsto>
                       JNum (of_int (whole_seconds (duration a) - whole_seconds (since now (startTime a))))];
            resp' = (if status a = ''ended'' then resp(''winner'' \<mapsto> JStr (highestBidder a)) else resp)
        in (a, json_ok resp', [LogQuery (status a) (highestBid a) (highestBidder a)]))"

text \<open>\<open>endAuction\<close> once its sleep is over: the body under the lock.\<close>

definition endAuction :: "auction \<Rightarrow> auction \<times> log_entry list" where
  "endAuction a =
     (a\<lparr>status := ''ended''\<rparr>, [LogAuctionEnded (highestBidder a) (highestBid a)])"

section \<open>Replica: runs\<close>

text \<open>
  The three things that take the lock of one replica, in the order they acquire it: a
  request to \<open>/bid\<close>, a request to \<open>/query\<close> (with the clock reading it sees) and
  the timer's \<open>endAuction\<close>.
\<close>

datatype event = BidReq request | QueryReq int request | TimerFires

definition step :: "(rat \<Rightarrow> int) \<Rightarrow> auction \<Rightarrow> event \<Rightarrow> auction" where
  "step ovf a e =
     (case e of
        BidReq r \<Rightarrow> fst (handleBid ovf a r)
      | QueryReq now r \<Rightarrow> fst (handleQuery a now r)
      | TimerFires \<Rightarrow> fst (endAuction a))"

fun run :: "(rat \<Rightarrow> int) \<Rightarrow> auction \<Rightarrow> event list \<Rightarrow> auction" where
  "run ovf a [] = a"
| "run ovf a (e # es) = run ovf (step ovf a e) es"

text \<open>The \<open>outcome\<close> field of a reply, when the reply is a JSON object that has one.\<close>

definition outcome :: "response \<Rightarrow> string option" where
  "outcome resp =
     (case payload resp of
        JsonBody m \<Rightarrow> (case m ''outcome'' of Some (JStr s) \<Rightarrow> Some s | _ \<Rightarrow> None)
      | TextBody _ \<Rightarrow> None)"

text \<open>
  Who bid what in a request, as \<open>handleBid\<close> reads it, and the bid an event got accepted
  (the reply said \<open>success\<close>), if it did.
\<close>

definition bid_of :: "(rat \<Rightarrow> int) \<Rightarrow> request \<Rightarrow> (string \<times> int) option" where
  "bid_of ovf r =
     (if Method r \<noteq> ''POST'' then None
      else case body r of
        None \<Rightarrow> None
      | Some m \<Rightarrow>
          (case (m ''name'', m ''amount'') of
             (Some (JStr name), Some (JNum amount)) \<Rightarrow> Some (name, to_int ovf amount)
           | _ \<Rightarrow> None))"

definition accepted :: "(rat \<Rightarrow> int) \<Rightarrow> auction \<Rightarrow> event \<Rightarrow> (string \<times> int) option" where
  "accepted ovf a e =
     (case e of
        BidReq r \<Rightarrow>
          (if outcome (fst (snd (handleBid ovf a r))) = Some ''success'' then bid_of ovf r else None)
      | _ \<Rightarrow> None)"

text \<open>A well-formed bid as it reaches \<open>handleBid\<close>: a POST whose body has both fields.\<close>

definition bid_request :: "string \<Rightarrow> rat \<Rightarrow> request" where
  "bid_request name amount =
     \<lparr> Method = ''POST'', body = Some [''name'' \<mapsto> JStr name, ''amount'' \<mapsto> JNum amount] \<rparr>"

text \<open>The accepted bids of a run, oldest first.\<close>

fun successes :: "(rat \<Rightarrow> int) \<Rightarrow> auction \<Rightarrow> event list \<Rightarrow> (string \<times> int) list" where
  "successes ovf a [] = []"
| "successes ovf a (e # es) =
     (case accepted ovf a e of None \<Rightarrow> [] | Some b \<Rightarrow> [b]) @ successes ovf (step ovf a e) es"

text \<open>The amount of the most recent accepted bid of \<open>id\<close> in such a list.\<close>

definition last_amount :: "string \<Rightarrow> (string \<times> int) list \<Rightarrow> int option" where
  "last_amount ident bs =
     (case filter (\<lambda>b. fst b = ident) bs of [] \<Rightarrow> None | x # xs \<Rightarrow> Some (snd (last (x # xs))))"

text \<open>
  A sequence of bids (bidder, amount on the wire) placed one after the other on one
  replica: the final state, the outcome of each, and the amounts that were strictly
  greater than the highest bid visible when they arrived.
\<close>

fun placeBids :: "(rat \<Rightarrow> int) \<Rightarrow> auction \<Rightarrow> (string \<times> rat) list \<Rightarrow> auction" where
  "placeBids ovf a [] = a"
| "placeBids ovf a (b # bs) = placeBids ovf (fst (placeBid ovf a (fst b) (snd b))) bs"

fun outcomes :: "(rat \<Rightarrow> int) \<Rightarrow> auction \<Rightarrow> (string \<times> rat) list \<Rightarrow> string option list" where
  "outcomes ovf a [] = []"
| "outcomes ovf a (b # bs) =
     outcome (fst (snd (placeBid ovf a (fst b) (snd b))))
       # outcomes ovf (fst (placeBid ovf a (fst b) (snd b))) bs"

fun winning :: "(rat \<Rightarrow> int) \<Rightarrow> auction \<Rightarrow> (string \<times> rat) list \<Rightarrow> int list" where
  "winning ovf a [] = []"
| "winning ovf a (b # bs) =
     (if highestBid a < to_int ovf (snd b) then [to_int ovf (snd b)] else [])
       @ winning ovf (fst (placeBid ovf a (fst b) (snd b))) bs"

section \<open>Coordinator (coordinator.go)\<close>

text \<open>
  The network is the coordinator's environment. A call changes the world \<open>'w\<close> (the
  replicas and the links) and gives back what the program's branches tell apart. For a
  POST followed by the decoding of the reply: \<open>http.Post\<close> returned an error, or the
  decoder did, or the reply decoded to a map.
\<close>

datatype post_outcome = PostFailed | ReplyUndecodable | ReplyDecoded "string \<rightharpoonup> json"

text \<open>
  For a GET: \<open>client.Get\<close> returned an error (no connection, or the client's timeout), or
  a reply came with its status code and a body that \<open>io.ReadAll\<close> could read or not.
\<close>

datatype get_outcome = GetFailed | GetReply nat "string option"

datatype query_error = ConnectError | ReadError | StatusError nat

datatype coord_log =
    LogSendError string
  | LogDecodeError string
  | LogReplicaFailure string "string \<rightharpoonup> json"
  | LogBidCompleted
  | LogQueryError string query_error
  | LogData string string
  | LogQueryAllFailed

record coordinator =
  replicas :: "string list"

text \<open>The body of \<open>bid\<close>'s loop after the POST: what it logs for one replica.\<close>

definition bid_reply_log :: "string \<Rightarrow> post_outcome \<Rightarrow> coord_log list" where
  "bid_reply_log replica out =
     (case out of
        PostFailed \<Rightarrow> [LogSendError replica]
      | ReplyUndecodable \<Rightarrow> [LogDecodeError replica]
      | ReplyDecoded m \<Rightarrow>
          (case m ''reason'' of
             Some (JStr reason) \<Rightarrow> if reason = ''fail'' then [LogReplicaFailure replica m] else []
           | _ \<Rightarrow> []))"

text \<open>
  \<open>bid\<close>'s loop. It returns the log lines, the POSTs it issued (address and body, in
  order) and the world afterwards.
\<close>

fun bid_loop ::
  "('w \<Rightarrow> string \<Rightarrow> (string \<rightharpoonup> json) \<Rightarrow> post_outcome \<times> 'w) \<Rightarrow> 'w \<Rightarrow> string list \<Rightarrow>
   (string \<rightharpoonup> json) \<Rightarrow> coord_log list \<times> (string \<times> (string \<rightharpoonup> json)) list \<times> 'w" where
  "bid_loop post w [] b = ([], [], w)"
| "bid_loop post w (replica # rs) b =
     (case post w (replica @ ''/bid'') b of
        (out, w1) \<Rightarrow>
          (case bid_loop post w1 rs b of
             (ls, calls, w2) \<Rightarrow>
               (bid_reply_log replica out @ ls, (replica @ ''/bid'', b) # calls, w2)))"

definition bid ::
  "coordinator \<Rightarrow> ('w \<Rightarrow> string \<Rightarrow> (string \<rightharpoonup> json) \<Rightarrow> post_outcome \<times> 'w) \<Rightarrow> 'w \<Rightarrow>
   string \<Rightarrow> int \<Rightarrow> coord_log list \<times> (string \<times> (string \<rightharpoonup> json)) list \<times> 'w" where
  "bid c post w name amount =
     (case bid_loop post w (replicas c)
             [''name'' \<mapsto> JStr name, ''amount'' \<mapsto> JNum (of_int amount)] of
        (ls, calls, w') \<Rightarrow> (ls @ [LogBidCompleted], calls, w'))"

text \<open>The client's \<open>Timeout\<close> in \<open>queryFromReplica\<close>, in nanoseconds.\<close>

definition query_timeout :: int where
  "query_timeout = 2 * 1000000000"

text \<open>
  \<open>queryFromReplica\<close>: the result, the GET it issued (address and timeout) and the world
  afterwards.
\<close>

definition queryFromReplica ::
  "('w \<Rightarrow> int \<Rightarrow> string \<Rightarrow> get_outcome \<times> 'w) \<Rightarrow> 'w \<Rightarrow> string \<Rightarrow>
   (query_error + string) \<times> (string \<times> int) \<times> 'w" where
  "queryFromReplica get w replica =
     (case get w query_timeout (replica @ ''/query'') of
        (out, w') \<Rightarrow>
          ((case out of
              GetFailed \<Rightarrow> Inl ConnectError
            | GetReply c None \<Rightarrow> Inl ReadError
            | GetReply c (Some b) \<Rightarrow> if c \<noteq> 200 then Inl (StatusError c) else Inr b),
           (replica @ ''/query'', query_timeout), w'))"

fun query_loop ::
  "('w \<Rightarrow> int \<Rightarrow> string \<Rightarrow> get_outcome \<times> 'w) \<Rightarrow> 'w \<Rightarrow> string list \<Rightarrow>
   coord_log list \<times> (string \<times> int) list \<times> 'w" where
  "query_loop get w [] = ([LogQueryAllFailed], [], w)"
| "query_loop get w (replica # rs) =
     (case queryFromReplica get w replica of
        (Inl err, call, w1) \<Rightarrow>
          (case query_loop get w1 rs of
             (ls, calls, w2) \<Rightarrow> (LogQueryError replica err # ls, call # calls, w2))
      | (Inr d, call, w1) \<Rightarrow> ([LogData replica d], [call], w1))"

definition query ::
  "coordinator \<Rightarrow> ('w \<Rightarrow> int \<Rightarrow> string \<Rightarrow> get_outcome \<times> 'w) \<Rightarrow> 'w \<Rightarrow>
   coord_log list \<times> (string \<times> int) list \<times> 'w" where
  "query c get w = query_loop get w (replicas c)"

text \<open>
  What each replica of a list answers when all of them are asked in turn, for the
  statements about "the first replica that succeeds" and "every replica fails".
\<close>

fun answers ::
  "('w \<Rightarrow> int \<Rightarrow> string \<Rightarrow> get_outcome \<times> 'w) \<Rightarrow> 'w \<Rightarrow> string list \<Rightarrow>
   (query_error + string) list" where
  "answers get w [] = []"
| "answers get w (replica # rs) =
     (case queryFromReplica get w replica of
        (res, call, w1) \<Rightarrow> res # answers get w1 rs)"

fun post_answers ::
  "('w \<Rightarrow> string \<Rightarrow> (string \<rightharpoonup> json) \<Rightarrow> post_outcome \<times> 'w) \<Rightarrow> 'w \<Rightarrow> string list \<Rightarrow>
   (string \<rightharpoonup> json) \<Rightarrow> post_outcome list" where
  "post_answers post w [] b = []"
| "post_answers post w (replica # rs) b =
     (case post w (replica @ ''/bid'') b of (out, w1) \<Rightarrow> out # post_answers post w1 rs b)"


section \<open>Basic facts\<close>

text \<open>
  Small amounts convert to themselves, whatever the platform does on overflow.
\<close>

lemma to_int_small:
  "to_int ovf 100 = 100" "to_int ovf 50 = 50" "to_int ovf 0 = 0" "to_int ovf 150 = 150"
  "to_int ovf 1 = 1" "to_int ovf 80 = 80" "to_int ovf 2 = 2"
  by (simp_all add: to_int_def trunc0_def)

text \<open>
  \<open>int(d.Seconds())\<close> on the configured duration, and where the rounding of the
  \<open>float64\<close> sum shows: one nanosecond short of 16777217 seconds reads as 16777217.
\<close>

lemma whole_seconds_examples:
  "whole_seconds (duration (init_auction 0)) = 100"
  "whole_seconds 1999999999 = 1"
  "whole_seconds 16777216999999999 = 16777217"
  by (simp add: init_auction_def, code_simp+)

text \<open>
  The outcome field of PlaceBid's reply is decided by the status and by the comparison of
  the converted amount with the highest bid.
\<close>

lemma outcome_placeBid:
  "outcome (fst (snd (placeBid ovf a name amount))) =
     Some (if status a = ''ended'' then ''auction ended''
           else if to_int ovf amount \<le> highestBid a then ''fail'' else ''success'')"
  by (simp add: placeBid_def outcome_def json_ok_def Let_def)

lemma outcome_http_error: "outcome (http_error msg c) = None"
  by (simp add: outcome_def http_error_def)

lemma handleBid_valid:
  "Method r = ''POST'' \<Longrightarrow> body r = Some m \<Longrightarrow> m ''name'' = Some (JStr name) \<Longrightarrow>
   m ''amount'' = Some (JNum amount) \<Longrightarrow> handleBid ovf a r = placeBid ovf a name amount"
  by (simp add: handleBid_def)

lemma bid_of_Some:
  "bid_of ovf r = Some (name, v) \<Longrightarrow>
   \<exists>m amount. Method r = ''POST'' \<and> body r = Some m \<and> m ''name'' = Some (JStr name) \<and>
     m ''amount'' = Some (JNum amount) \<and> v = to_int ovf amount"
  by (auto simp add: bid_of_def split: if_splits option.splits json.splits)

lemma bid_of_None:
  "bid_of ovf r = None \<Longrightarrow>
   handleBid ovf a r = (a, snd (handleBid ovf a r)) \<and>
   outcome (fst (snd (handleBid ovf a r))) = None"
  by (auto simp add: bid_of_def handleBid_def outcome_http_error
      split: if_splits option.splits json.splits)

text \<open>
  One step of a replica, by event: a well-formed bid goes through PlaceBid, everything
  else but the timer leaves the state alone.
\<close>

lemma accepted_bid:
  "accepted ovf a (BidReq r) =
     (case bid_of ovf r of None \<Rightarrow> None
      | Some (name, v) \<Rightarrow> if status a \<noteq> ''ended'' \<and> highestBid a < v then Some (name, v) else None)"
proof (cases "bid_of ovf r")
  case None
  then show ?thesis using bid_of_None[of ovf r a] by (simp add: accepted_def)
next
  case (Some b)
  obtain name v where b: "b = (name, v)" by (cases b)
  from Some b obtain m amount where
    "Method r = ''POST''" "body r = Some m" "m ''name'' = Some (JStr name)"
    "m ''amount'' = Some (JNum amount)" "v = to_int ovf amount"
    using bid_of_Some by blast
  then have "handleBid ovf a r = placeBid ovf a name amount" and "v = to_int ovf amount"
    by (simp_all add: handleBid_valid)
  then show ?thesis using Some b by (simp add: accepted_def outcome_placeBid)
qed

lemma step_bid:
  "step ovf a (BidReq r) =
     (case bid_of ovf r of None \<Rightarrow> a
      | Some (name, v) \<Rightarrow>
          if status a = ''ended'' then a
          else if v \<le> highestBid a then
            (if bidders a name = None then a\<lparr>bidders := (bidders a)(name \<mapsto> 0)\<rparr> else a)
          else a\<lparr>highestBid := v, highestBidder := name, bidders := (bidders a)(name \<mapsto> v)\<rparr>)"
proof (cases "bid_of ovf r")
  case None
  then show ?thesis using bid_of_None[of ovf r a] by (simp add: step_def) (metis fst_conv)
next
  case (Some b)
  obtain name v where b: "b = (name, v)" by (cases b)
  from Some b obtain m amount where
    "Method r = ''POST''" "body r = Some m" "m ''name'' = Some (JStr name)"
    "m ''amount'' = Some (JNum amount)" "v = to_int ovf amount"
    using bid_of_Some by blast
  then have "handleBid ovf a r = placeBid ovf a name amount" and "v = to_int ovf amount"
    by (simp_all add: handleBid_valid)
  then show ?thesis using Some b by (simp add: step_def placeBid_def Let_def)
qed

lemma step_query: "step ovf a (QueryReq now r) = a"
  by (simp add: step_def handleQuery_def Let_def)

lemma step_timer: "step ovf a TimerFires = a\<lparr>status := ''ended''\<rparr>"
  by (simp add: step_def endAuction_def)

lemma step_bid_request:
  "step ovf a (BidReq (bid_request name amount)) = fst (placeBid ovf a name amount)"
  by (simp add: step_def handleBid_def bid_request_def)

lemma accepted_bid_request:
  "accepted ovf a (BidReq (bid_request name amount)) =
     (if status a \<noteq> ''ended'' \<and> highestBid a < to_int ovf amount
      then Some (name, to_int ovf amount) else None)"
  by (simp add: accepted_bid bid_of_def bid_request_def)

lemma step_highestBid_mono: "highestBid a \<le> highestBid (step ovf a e)"
  by (cases e) (auto simp add: step_bid step_query step_timer split: option.splits)

lemma run_highestBid_mono: "highestBid a \<le> highestBid (run ovf a es)"
proof (induction es arbitrary: a)
  case Nil
  show ?case by simp
next
  case (Cons e es)
  have "highestBid a \<le> highestBid (step ovf a e)" by (rule step_highestBid_mono)
  also have "\<dots> \<le> highestBid (run ovf (step ovf a e) es)" by (rule Cons.IH)
  finally show ?case by simp
qed

lemma step_ended: "status a = ''ended'' \<Longrightarrow> status (step ovf a e) = ''ended''"
  by (cases e) (auto simp add: step_bid step_query step_timer split: option.splits)

lemma run_ended: "status a = ''ended'' \<Longrightarrow> status (run ovf a es) = ''ended''"
  by (induction es arbitrary: a) (simp_all add: step_ended)

lemma placeBid_ongoing:
  "status a \<noteq> ''ended'' \<Longrightarrow>
   status (fst (placeBid ovf a name amount)) = status a \<and>
   highestBid (fst (placeBid ovf a name amount)) = max (highestBid a) (to_int ovf amount)"
  by (simp add: placeBid_def Let_def)

lemma run_snoc: "run ovf a (es @ [e]) = step ovf (run ovf a es) e"
  by (induction es arbitrary: a) simp_all

lemma successes_snoc:
  "successes ovf a (es @ [e]) =
     successes ovf a es @ (case accepted ovf (run ovf a es) e of None \<Rightarrow> [] | Some b \<Rightarrow> [b])"
  by (induction es arbitrary: a) simp_all

lemma last_amount_Nil: "last_amount ident [] = None"
  by (simp add: last_amount_def)

lemma last_amount_snoc:
  "last_amount ident (bs @ [b]) = (if fst b = ident then Some (snd b) else last_amount ident bs)"
  by (cases "filter (\<lambda>b. fst b = ident) bs") (simp_all add: last_amount_def)

text \<open>
  The running example of the specification: alice bids 100 on a fresh replica, then bob
  bids 50.
\<close>

lemma alice_100:
  "fst (placeBid ovf (init_auction 0) ''alice'' 100) =
     \<lparr> startTime = 0, duration = 100 * 1000000000, highestBid = 100,
       highestBidder = ''alice'', bidders = [''alice'' \<mapsto> 100], status = ''ongoing'' \<rparr>"
  by (simp add: placeBid_def init_auction_def to_int_small)

lemma run_alice_bob:
  "run ovf (init_auction 0) [BidReq (bid_request ''alice'' 100), BidReq (bid_request ''bob'' 50)] =
     \<lparr> startTime = 0, duration = 100 * 1000000000, highestBid = 100,
       highestBidder = ''alice'', bidders = [''alice'' \<mapsto> 100, ''bob'' \<mapsto> 0], status = ''ongoing'' \<rparr>"
  unfolding run.simps step_bid_request alice_100 by (simp add: placeBid_def to_int_small)

lemma successes_alice_bob:
  "successes ovf (init_auction 0) [BidReq (bid_request ''alice'' 100), BidReq (bid_request ''bob'' 50)]
     = [(''alice'', 100)]"
  unfolding successes.simps step_bid_request accepted_bid_request alice_100
  by (simp add: to_int_small init_auction_def)

section \<open>Rejected bids and the state (C1)\<close>

text \<open>
  C1, as the specification states it: a call to PlaceBid that does not return success
  leaves the whole auction state unchanged. The code registers an unknown bidder with
  amount 0 before it compares the amounts, so this fails: after alice's accepted bid of
  100, bob's first bid of 50 is rejected and yet the bidders map gains the entry for bob.
\<close>

theorem rejected_bid_mutates:
  "outcome (fst (snd (placeBid ovf_amd64 (fst (placeBid ovf_amd64 (init_auction 0) ''alice'' 100)) ''bob'' 50)))
     = Some ''fail''
   \<and> bidders (fst (placeBid ovf_amd64 (init_auction 0) ''alice'' 100)) ''bob'' = None
   \<and> bidders (fst (placeBid ovf_amd64 (fst (placeBid ovf_amd64 (init_auction 0) ''alice'' 100)) ''bob'' 50)) ''bob''
       = Some 0
   \<and> fst (placeBid ovf_amd64 (fst (placeBid ovf_amd64 (init_auction 0) ''alice'' 100)) ''bob'' 50)
       \<noteq> fst (placeBid ovf_amd64 (init_auction 0) ''alice'' 100)"
proof -
  have 1: "outcome (fst (snd (placeBid ovf_amd64 (fst (placeBid ovf_amd64 (init_auction 0) ''alice'' 100)) ''bob'' 50)))
     = Some ''fail''"
    unfolding alice_100 by (simp add: outcome_placeBid to_int_small)
  have 2: "bidders (fst (placeBid ovf_amd64 (init_auction 0) ''alice'' 100)) ''bob'' = None"
    by (simp add: alice_100)
  have 3: "bidders (fst (placeBid ovf_amd64 (fst (placeBid ovf_amd64 (init_auction 0) ''alice'' 100)) ''bob'' 50)) ''bob''
       = Some 0"
    unfolding alice_100 by (simp add: placeBid_def to_int_small)
  from 2 3 have 4: "fst (placeBid ovf_amd64 (fst (placeBid ovf_amd64 (init_auction 0) ''alice'' 100)) ''bob'' 50)
       \<noteq> fst (placeBid ovf_amd64 (init_auction 0) ''alice'' 100)"
    by (metis option.distinct(1))
  from 1 2 3 4 show ?thesis by blast
qed

text \<open>
  C1, amended: a call to PlaceBid that does not return success leaves highestBid,
  highestBidder and status unchanged; it leaves the whole state unchanged when the auction
  has ended or the bidder already has an entry; otherwise (a rejected bid of a bidder with
  no entry) the only change is the new entry of the bidder, with amount 0.
\<close>

theorem rejected_bid_frame:
  assumes "outcome (fst (snd (placeBid ovf a name amount))) \<noteq> Some ''success''"
  shows "fst (placeBid ovf a name amount) =
           (if status a \<noteq> ''ended'' \<and> bidders a name = None
            then a\<lparr>bidders := (bidders a)(name \<mapsto> 0)\<rparr> else a)
       \<and> highestBid (fst (placeBid ovf a name amount)) = highestBid a
       \<and> highestBidder (fst (placeBid ovf a name amount)) = highestBidder a
       \<and> status (fst (placeBid ovf a name amount)) = status a
       \<and> (status a = ''ended'' \<longrightarrow> fst (placeBid ovf a name amount) = a)"
  using assms by (auto simp add: placeBid_def outcome_def json_ok_def Let_def split: if_splits)

theorem rejected_bid_frame_witness:
  "outcome (fst (snd (placeBid ovf_amd64 (fst (placeBid ovf_amd64 (init_auction 0) ''alice'' 100)) ''bob'' 50)))
     = Some ''fail''
   \<and> fst (placeBid ovf_amd64 (fst (placeBid ovf_amd64 (init_auction 0) ''alice'' 100)) ''bob'' 50) =
     \<lparr> startTime = 0, duration = 100 * 1000000000, highestBid = 100,
       highestBidder = ''alice'', bidders = [''alice'' \<mapsto> 100, ''bob'' \<mapsto> 0], status = ''ongoing'' \<rparr>"
proof -
  have o: "outcome (fst (snd (placeBid ovf_amd64 (fst (placeBid ovf_amd64 (init_auction 0) ''alice'' 100)) ''bob'' 50)))
     = Some ''fail''"
    unfolding alice_100 by (simp add: outcome_placeBid to_int_small)
  then have "outcome (fst (snd (placeBid ovf_amd64 (fst (placeBid ovf_amd64 (init_auction 0) ''alice'' 100)) ''bob'' 50)))
     \<noteq> Some ''success''" by simp
  from rejected_bid_frame[OF this] o show ?thesis unfolding alice_100 by simp
qed

section \<open>The bidders map (C2)\<close>

lemma bidders_invariant:
  "(case bidders (run ovf (init_auction t0) es) ident of
      None \<Rightarrow> last_amount ident (successes ovf (init_auction t0) es) = None
    | Some v \<Rightarrow> v = (case last_amount ident (successes ovf (init_auction t0) es) of
                       None \<Rightarrow> 0 | Some x \<Rightarrow> x))"
proof (induction es rule: rev_induct)
  case Nil
  show ?case by (simp add: init_auction_def last_amount_Nil)
next
  case (snoc e es)
  let ?a = "run ovf (init_auction t0) es"
  let ?h = "successes ovf (init_auction t0) es"
  show ?case
  proof (cases e)
    case (BidReq r)
    show ?thesis
    proof (cases "bid_of ovf r")
      case None
      then show ?thesis using snoc BidReq
        by (simp add: run_snoc successes_snoc step_bid accepted_bid split: option.splits)
    next
      case (Some b)
      obtain name v where b: "b = (name, v)" by (cases b)
      show ?thesis using snoc BidReq Some b
        by (auto simp add: run_snoc successes_snoc step_bid accepted_bid last_amount_snoc
            split: option.splits if_splits)
    qed
  next
    case (QueryReq now r)
    then show ?thesis using snoc by (simp add: run_snoc successes_snoc step_query accepted_def split: option.splits)
  next
    case TimerFires
    then show ?thesis using snoc by (simp add: run_snoc successes_snoc step_timer accepted_def split: option.splits)
  qed
qed

lemma bidders_have_bid:
  "bidders (run ovf (init_auction t0) es) ident = Some v \<Longrightarrow>
   \<exists>es1 r es2 x. es = es1 @ BidReq r # es2 \<and> bid_of ovf r = Some (ident, x) \<and>
      status (run ovf (init_auction t0) es1) \<noteq> ''ended''"
proof (induction es arbitrary: v rule: rev_induct)
  case Nil
  then show ?case by (simp add: init_auction_def)
next
  case (snoc e es)
  show ?case
  proof (cases "bidders (run ovf (init_auction t0) es) ident")
    case (Some u)
    then obtain es1 r es2 x where
      "es = es1 @ BidReq r # es2" "bid_of ovf r = Some (ident, x)"
      "status (run ovf (init_auction t0) es1) \<noteq> ''ended''"
      using snoc.IH by blast
    then have "es @ [e] = es1 @ BidReq r # (es2 @ [e])" by simp
    then show ?thesis
      using \<open>bid_of ovf r = Some (ident, x)\<close>
        \<open>status (run ovf (init_auction t0) es1) \<noteq> ''ended''\<close>
      by blast
  next
    case None
    show ?thesis
    proof (cases e)
      case (BidReq r)
      show ?thesis
      proof (cases "bid_of ovf r")
        case N: None
        then show ?thesis using snoc.prems None BidReq by (simp add: run_snoc step_bid)
      next
        case (Some b)
        obtain name x where b: "b = (name, x)" by (cases b)
        have "name = ident \<and> status (run ovf (init_auction t0) es) \<noteq> ''ended''"
          using snoc.prems None BidReq Some b
          by (auto simp add: run_snoc step_bid split: if_splits)
        then have "es @ [e] = es @ BidReq r # []" "bid_of ovf r = Some (ident, x)"
          "status (run ovf (init_auction t0) es) \<noteq> ''ended''"
          using BidReq Some b by simp_all
        then show ?thesis by blast
      qed
    next
      case (QueryReq now r)
      then show ?thesis using snoc.prems None by (simp add: run_snoc step_query)
    next
      case TimerFires
      then show ?thesis using snoc.prems None by (simp add: run_snoc step_timer)
    qed
  qed
qed

text \<open>
  C2, as the specification states it: an entry of the bidders map means that the bidder
  has placed a successful bid, and holds the amount of the latest one. After alice's 100
  and bob's rejected 50, bob has an entry (with 0) and no accepted bid.
\<close>

theorem entry_without_accepted_bid:
  "bidders (run ovf_amd64 (init_auction 0)
             [BidReq (bid_request ''alice'' 100), BidReq (bid_request ''bob'' 50)]) ''bob'' = Some 0
   \<and> successes ovf_amd64 (init_auction 0)
             [BidReq (bid_request ''alice'' 100), BidReq (bid_request ''bob'' 50)] = [(''alice'', 100)]
   \<and> last_amount ''bob'' (successes ovf_amd64 (init_auction 0)
             [BidReq (bid_request ''alice'' 100), BidReq (bid_request ''bob'' 50)]) = None"
  unfolding run_alice_bob successes_alice_bob by (simp add: last_amount_def)

text \<open>
  C2, amended: in every state a replica reaches from its initial state, a bidder with an
  entry in the bidders map has sent at least one well-formed bid that arrived while the
  auction had not ended, and the entry holds the amount of the bidder's most recent
  accepted bid, or 0 when none of the bidder's bids was accepted.
\<close>

theorem bidders_last_accepted:
  assumes "bidders (run ovf (init_auction t0) es) ident = Some v"
  shows "(\<exists>es1 r es2 x. es = es1 @ BidReq r # es2 \<and> bid_of ovf r = Some (ident, x) \<and>
            status (run ovf (init_auction t0) es1) \<noteq> ''ended'')
       \<and> v = (case last_amount ident (successes ovf (init_auction t0) es) of
                None \<Rightarrow> 0 | Some x \<Rightarrow> x)"
  using assms bidders_have_bid[OF assms]
    bidders_invariant[where ovf=ovf and ?t0.0=t0 and es=es and ident=ident] by simp

theorem bidders_last_accepted_witness:
  "bidders (run ovf_amd64 (init_auction 0)
             [BidReq (bid_request ''alice'' 100), BidReq (bid_request ''bob'' 50)]) ''alice'' = Some 100
   \<and> (case last_amount ''alice'' (successes ovf_amd64 (init_auction 0)
             [BidReq (bid_request ''alice'' 100), BidReq (bid_request ''bob'' 50)]) of
         None \<Rightarrow> 0 | Some x \<Rightarrow> x) = 100"
proof -
  have h: "bidders (run ovf_amd64 (init_auction 0)
             [BidReq (bid_request ''alice'' 100), BidReq (bid_request ''bob'' 50)]) ''alice'' = Some 100"
    unfolding run_alice_bob by simp
  from bidders_last_accepted[OF h] h show ?thesis by simp
qed

section \<open>The contract of PlaceBid (C3)\<close>

text \<open>
  C3: when the auction has ended PlaceBid answers "auction ended" and changes nothing,
  whatever the amount; otherwise, when the converted amount is at most the highest bid, it
  answers "fail" with the reason "bid must be higher than current highest bid"; otherwise
  it sets highestBid to the amount, highestBidder to the bidder and the bidder's entry to
  the amount, and answers "success". No other operation changes the bid fields:
  endAuction keeps them, handleQuery keeps the state, and so does handleBid on a request
  that is not a well-formed bid.
\<close>

theorem placeBid_contract:
  "(status a = ''ended'' \<longrightarrow>
      fst (placeBid ovf a name amount) = a \<and>
      fst (snd (placeBid ovf a name amount)) = json_ok [''outcome'' \<mapsto> JStr ''auction ended''])
   \<and> (status a \<noteq> ''ended'' \<and> to_int ovf amount \<le> highestBid a \<longrightarrow>
      fst (snd (placeBid ovf a name amount)) =
        json_ok [''outcome'' \<mapsto> JStr ''fail'',
                 ''reason'' \<mapsto> JStr ''bid must be higher than current highest bid''])
   \<and> (status a \<noteq> ''ended'' \<and> highestBid a < to_int ovf amount \<longrightarrow>
      fst (placeBid ovf a name amount) =
        a\<lparr> highestBid := to_int ovf amount, highestBidder := name,
           bidders := (bidders a)(name \<mapsto> to_int ovf amount) \<rparr> \<and>
      fst (snd (placeBid ovf a name amount)) = json_ok [''outcome'' \<mapsto> JStr ''success''])
   \<and> highestBid (fst (endAuction a)) = highestBid a
   \<and> highestBidder (fst (endAuction a)) = highestBidder a
   \<and> bidders (fst (endAuction a)) = bidders a
   \<and> fst (handleQuery a now q) = a
   \<and> (bid_of ovf r = None \<longrightarrow> fst (handleBid ovf a r) = a)"
  apply (intro conjI impI)
  apply (simp_all add: placeBid_def endAuction_def handleQuery_def Let_def)
  using bid_of_None[of ovf r a] apply (metis fst_conv)
  done

theorem placeBid_contract_witness:
  "fst (placeBid ovf_amd64 ((init_auction 0)\<lparr>status := ''ended''\<rparr>) ''alice'' 100)
     = (init_auction 0)\<lparr>status := ''ended''\<rparr>
   \<and> fst (snd (placeBid ovf_amd64 ((init_auction 0)\<lparr>status := ''ended''\<rparr>) ''alice'' 100))
     = json_ok [''outcome'' \<mapsto> JStr ''auction ended'']
   \<and> fst (snd (placeBid ovf_amd64 (init_auction 0) ''bob'' 0))
     = json_ok [''outcome'' \<mapsto> JStr ''fail'',
                ''reason'' \<mapsto> JStr ''bid must be higher than current highest bid'']
   \<and> fst (placeBid ovf_amd64 (init_auction 0) ''alice'' 100)
     = (init_auction 0)\<lparr> highestBid := 100, highestBidder := ''alice'',
                          bidders := [''alice'' \<mapsto> 100] \<rparr>
   \<and> fst (snd (placeBid ovf_amd64 (init_auction 0) ''alice'' 100))
     = json_ok [''outcome'' \<mapsto> JStr ''success'']
   \<and> fst (handleBid ovf_amd64 (init_auction 0) \<lparr>Method = ''GET'', body = None\<rparr>) = init_auction 0"
  using placeBid_contract[where a = "(init_auction 0)\<lparr>status := ''ended''\<rparr>" and ovf = ovf_amd64
          and name = "''alice''" and amount = 100]
        placeBid_contract[where a = "init_auction 0" and ovf = ovf_amd64
          and name = "''bob''" and amount = 0]
        placeBid_contract[where a = "init_auction 0" and ovf = ovf_amd64
          and name = "''alice''" and amount = 100 and r = "\<lparr>Method = ''GET'', body = None\<rparr>"]
  by (simp add: to_int_small init_auction_def bid_of_def)

section \<open>Sequences of bids (C4)\<close>

lemma winning_above:
  "status a \<noteq> ''ended'' \<Longrightarrow> v \<in> set (winning ovf a bs) \<Longrightarrow> highestBid a < v"
proof (induction bs arbitrary: a)
  case Nil
  then show ?case by simp
next
  case (Cons b bs)
  let ?a' = "fst (placeBid ovf a (fst b) (snd b))"
  have a': "status ?a' \<noteq> ''ended''" "highestBid ?a' = max (highestBid a) (to_int ovf (snd b))"
    using placeBid_ongoing[OF Cons.prems(1)] Cons.prems(1) by simp_all
  from Cons.prems(2) consider "highestBid a < to_int ovf (snd b)" "v = to_int ovf (snd b)"
    | "v \<in> set (winning ovf ?a' bs)"
    by (auto split: if_splits)
  then show ?case
  proof cases
    case 1
    then show ?thesis by simp
  next
    case 2
    then have "highestBid ?a' < v" using Cons.IH a'(1) by blast
    then show ?thesis using a'(2) by simp
  qed
qed

lemma placeBids_Max:
  "status a \<noteq> ''ended'' \<Longrightarrow>
   highestBid (placeBids ovf a bs) = Max (insert (highestBid a) (set (winning ovf a bs)))"
proof (induction bs arbitrary: a)
  case Nil
  then show ?case by simp
next
  case (Cons b bs)
  let ?a' = "fst (placeBid ovf a (fst b) (snd b))"
  let ?W = "set (winning ovf ?a' bs)"
  have a': "status ?a' \<noteq> ''ended''" "highestBid ?a' = max (highestBid a) (to_int ovf (snd b))"
    using placeBid_ongoing[OF Cons.prems(1)] Cons.prems(1) by simp_all
  have IH: "highestBid (placeBids ovf ?a' bs) = Max (insert (highestBid ?a') ?W)"
    using Cons.IH a'(1) by blast
  show ?case
  proof (cases "highestBid a < to_int ovf (snd b)")
    case True
    have "to_int ovf (snd b) \<le> Max (insert (to_int ovf (snd b)) ?W)" by simp
    with True have "highestBid a \<le> Max (insert (to_int ovf (snd b)) ?W)" by linarith
    then have "Max (insert (highestBid a) (insert (to_int ovf (snd b)) ?W))
             = Max (insert (to_int ovf (snd b)) ?W)"
      by (simp add: max_def)
    then show ?thesis using True IH a'(2) by (simp add: max_def)
  next
    case False
    then show ?thesis using IH a'(2) by (simp add: max_def)
  qed
qed

lemma placeBids_winning:
  assumes "status a \<noteq> ''ended''"
  shows "highestBid (placeBids ovf a bs) =
           (if winning ovf a bs = [] then highestBid a else Max (set (winning ovf a bs)))"
proof (cases "winning ovf a bs = []")
  case True
  then show ?thesis using placeBids_Max[OF assms, of ovf bs] by simp
next
  case False
  then obtain v where v: "v \<in> set (winning ovf a bs)" by (cases "winning ovf a bs") auto
  then have "highestBid a < v" using winning_above[OF assms] by blast
  moreover have "v \<le> Max (set (winning ovf a bs))" using v by simp
  ultimately have "highestBid a \<le> Max (set (winning ovf a bs))" by linarith
  then have "Max (insert (highestBid a) (set (winning ovf a bs))) = Max (set (winning ovf a bs))"
    using False by (simp add: max_def)
  then show ?thesis using False placeBids_Max[OF assms, of ovf bs] by simp
qed

lemma outcomes_all_fail:
  "status a \<noteq> ''ended'' \<Longrightarrow> \<forall>b\<in>set bs. to_int ovf (snd b) \<le> highestBid a \<Longrightarrow>
   outcomes ovf a bs = replicate (length bs) (Some ''fail'')"
proof (induction bs arbitrary: a)
  case Nil
  then show ?case by simp
next
  case (Cons b bs)
  let ?a' = "fst (placeBid ovf a (fst b) (snd b))"
  have le: "to_int ovf (snd b) \<le> highestBid a" using Cons.prems(2) by simp
  have a': "status ?a' \<noteq> ''ended''" "highestBid ?a' = highestBid a"
    using placeBid_ongoing[OF Cons.prems(1), of ovf "fst b" "snd b"] Cons.prems(1) le by simp_all
  have "outcomes ovf ?a' bs = replicate (length bs) (Some ''fail'')"
    using Cons.IH[OF a'(1)] Cons.prems(2) a'(2) by simp
  moreover have "outcome (fst (snd (placeBid ovf a (fst b) (snd b)))) = Some ''fail''"
    using Cons.prems(1) le by (simp add: outcome_placeBid)
  ultimately show ?case by simp
qed

lemma outcomes_increasing:
  "status a \<noteq> ''ended'' \<Longrightarrow> sorted_wrt (<) (map (\<lambda>b. to_int ovf (snd b)) bs) \<Longrightarrow>
   \<forall>b\<in>set bs. highestBid a < to_int ovf (snd b) \<Longrightarrow>
   outcomes ovf a bs = replicate (length bs) (Some ''success'')"
proof (induction bs arbitrary: a)
  case Nil
  then show ?case by simp
next
  case (Cons b bs)
  let ?a' = "fst (placeBid ovf a (fst b) (snd b))"
  have lt: "highestBid a < to_int ovf (snd b)" using Cons.prems(3) by simp
  have a': "status ?a' \<noteq> ''ended''" "highestBid ?a' = to_int ovf (snd b)"
    using placeBid_ongoing[OF Cons.prems(1), of ovf "fst b" "snd b"] Cons.prems(1) lt by simp_all
  have "\<forall>c\<in>set bs. highestBid ?a' < to_int ovf (snd c)"
    using Cons.prems(2) a'(2) by simp
  then have "outcomes ovf ?a' bs = replicate (length bs) (Some ''success'')"
    using Cons.IH[OF a'(1)] Cons.prems(2) by simp
  moreover have "outcome (fst (snd (placeBid ovf a (fst b) (snd b)))) = Some ''success''"
    using Cons.prems(1) lt by (simp add: outcome_placeBid)
  ultimately show ?case by simp
qed

lemma outcomes_decreasing:
  assumes "status a \<noteq> ''ended''"
    and "sorted_wrt (>) (map (\<lambda>b. to_int ovf (snd b)) (b # bs))"
    and "highestBid a < to_int ovf (snd b)"
  shows "outcomes ovf a (b # bs) = Some ''success'' # replicate (length bs) (Some ''fail'')"
proof -
  let ?a' = "fst (placeBid ovf a (fst b) (snd b))"
  have a': "status ?a' \<noteq> ''ended''" "highestBid ?a' = to_int ovf (snd b)"
    using placeBid_ongoing[OF assms(1), of ovf "fst b" "snd b"] assms(1,3) by simp_all
  have "\<forall>c\<in>set bs. to_int ovf (snd c) \<le> highestBid ?a'"
    using assms(2) a'(2) by auto
  then have "outcomes ovf ?a' bs = replicate (length bs) (Some ''fail'')"
    using outcomes_all_fail[OF a'(1)] by blast
  moreover have "outcome (fst (snd (placeBid ovf a (fst b) (snd b)))) = Some ''success''"
    using assms(1,3) by (simp add: outcome_placeBid)
  ultimately show ?thesis by simp
qed

text \<open>
  C4, as the specification states it: strictly increasing amounts delivered in increasing
  order all succeed, and delivered in decreasing order the first one succeeds. Nothing
  makes the amounts exceed the highest bid the replica already holds: on a fresh replica
  the bids 0 and 1, in this order, get "fail" and "success"; after alice's 100, the bids
  50 and 80 are both rejected, in either order.
\<close>

theorem increasing_bids_rejected:
  "outcomes ovf_amd64 (init_auction 0) [(''alice'', 0), (''bob'', 1)]
     = [Some ''fail'', Some ''success'']
   \<and> outcomes ovf_amd64 (fst (placeBid ovf_amd64 (init_auction 0) ''alice'' 100))
        [(''bob'', 50), (''carol'', 80)] = [Some ''fail'', Some ''fail'']
   \<and> outcomes ovf_amd64 (fst (placeBid ovf_amd64 (init_auction 0) ''alice'' 100))
        [(''carol'', 80), (''bob'', 50)] = [Some ''fail'', Some ''fail'']"
proof -
  have 1: "outcomes ovf_amd64 (init_auction 0) [(''alice'', 0), (''bob'', 1)]
     = [Some ''fail'', Some ''success'']"
    by (simp add: outcome_placeBid to_int_small) (simp add: placeBid_def init_auction_def to_int_small)
  have a: "status (fst (placeBid ovf_amd64 (init_auction 0) ''alice'' 100)) \<noteq> ''ended''"
    "highestBid (fst (placeBid ovf_amd64 (init_auction 0) ''alice'' 100)) = 100"
    unfolding alice_100 by simp_all
  have 2: "outcomes ovf_amd64 (fst (placeBid ovf_amd64 (init_auction 0) ''alice'' 100))
        [(''bob'', 50), (''carol'', 80)] = [Some ''fail'', Some ''fail'']"
    using outcomes_all_fail[OF a(1), of "[(''bob'', 50), (''carol'', 80)]" ovf_amd64] a(2)
    by (simp add: to_int_small)
  have 3: "outcomes ovf_amd64 (fst (placeBid ovf_amd64 (init_auction 0) ''alice'' 100))
        [(''carol'', 80), (''bob'', 50)] = [Some ''fail'', Some ''fail'']"
    using outcomes_all_fail[OF a(1), of "[(''carol'', 80), (''bob'', 50)]" ovf_amd64] a(2)
    by (simp add: to_int_small)
  from 1 2 3 show ?thesis by blast
qed

text \<open>
  C4, amended: for a sequence of bids placed one after the other while the auction is
  ongoing, the final highestBid is the maximum of the amounts that were strictly greater
  than the highestBid visible at their arrival (the starting highestBid when there is no
  such amount). When the converted amounts are strictly increasing and the first one is
  greater than the starting highestBid, every bid succeeds; when they are strictly
  decreasing and the first one is greater than the starting highestBid, the first bid
  succeeds and every other one is rejected.
\<close>

theorem bid_sequences:
  assumes "status a \<noteq> ''ended''"
  shows "highestBid (placeBids ovf a bs) =
           (if winning ovf a bs = [] then highestBid a else Max (set (winning ovf a bs)))
       \<and> (sorted_wrt (<) (map (\<lambda>b. to_int ovf (snd b)) bs) \<and>
          (bs \<noteq> [] \<longrightarrow> highestBid a < to_int ovf (snd (hd bs))) \<longrightarrow>
            outcomes ovf a bs = replicate (length bs) (Some ''success''))
       \<and> (sorted_wrt (>) (map (\<lambda>b. to_int ovf (snd b)) bs) \<and> bs \<noteq> [] \<and>
          highestBid a < to_int ovf (snd (hd bs)) \<longrightarrow>
            outcomes ovf a bs = Some ''success'' # replicate (length bs - 1) (Some ''fail''))"
proof (intro conjI impI)
  show "highestBid (placeBids ovf a bs) =
           (if winning ovf a bs = [] then highestBid a else Max (set (winning ovf a bs)))"
    by (rule placeBids_winning[OF assms])
next
  assume h: "sorted_wrt (<) (map (\<lambda>b. to_int ovf (snd b)) bs) \<and>
          (bs \<noteq> [] \<longrightarrow> highestBid a < to_int ovf (snd (hd bs)))"
  have "\<forall>b\<in>set bs. highestBid a < to_int ovf (snd b)"
  proof (cases bs)
    case Nil
    then show ?thesis by simp
  next
    case (Cons c cs)
    then show ?thesis using h by fastforce
  qed
  then show "outcomes ovf a bs = replicate (length bs) (Some ''success'')"
    using outcomes_increasing[OF assms] h by blast
next
  assume h: "sorted_wrt (>) (map (\<lambda>b. to_int ovf (snd b)) bs) \<and> bs \<noteq> [] \<and>
          highestBid a < to_int ovf (snd (hd bs))"
  then obtain c cs where bs: "bs = c # cs" by (cases bs) auto
  then show "outcomes ovf a bs = Some ''success'' # replicate (length bs - 1) (Some ''fail'')"
    using outcomes_decreasing[OF assms, of ovf c cs] h by simp
qed

theorem bid_sequences_witness:
  "outcomes ovf_amd64 (init_auction 0) [(''alice'', 1), (''bob'', 2)]
     = [Some ''success'', Some ''success'']
   \<and> highestBid (placeBids ovf_amd64 (init_auction 0) [(''alice'', 1), (''bob'', 2)]) = 2
   \<and> outcomes ovf_amd64 (init_auction 0) [(''bob'', 2), (''alice'', 1)]
     = [Some ''success'', Some ''fail'']"
proof -
  have s: "status (init_auction 0) \<noteq> ''ended''" by (simp add: init_auction_def)
  have w: "winning ovf_amd64 (init_auction 0) [(''alice'', 1), (''bob'', 2)] = [1, 2]"
    by (simp add: to_int_small init_auction_def placeBid_def)
  from bid_sequences[OF s, of ovf_amd64 "[(''alice'', 1), (''bob'', 2)]"]
       bid_sequences[OF s, of ovf_amd64 "[(''bob'', 2), (''alice'', 1)]"]
  show ?thesis unfolding w by (simp add: to_int_small init_auction_def)
qed

section \<open>The highest bid never decreases (C5)\<close>

lemma highest_is_last_accepted:
  "(if successes ovf (init_auction t0) es = []
    then highestBid (run ovf (init_auction t0) es) = 0 \<and> highestBidder (run ovf (init_auction t0) es) = []
    else last (successes ovf (init_auction t0) es) =
           (highestBidder (run ovf (init_auction t0) es), highestBid (run ovf (init_auction t0) es)))"
proof (induction es rule: rev_induct)
  case Nil
  show ?case by (simp add: init_auction_def)
next
  case (snoc e es)
  show ?case
  proof (cases e)
    case (BidReq r)
    show ?thesis
    proof (cases "bid_of ovf r")
      case None
      then show ?thesis using snoc BidReq
        by (simp add: run_snoc successes_snoc step_bid accepted_bid)
    next
      case (Some b)
      obtain name v where b: "b = (name, v)" by (cases b)
      show ?thesis using snoc BidReq Some b
        by (auto simp add: run_snoc successes_snoc step_bid accepted_bid split: if_splits)
    qed
  next
    case (QueryReq now r)
    then show ?thesis using snoc by (simp add: run_snoc successes_snoc step_query accepted_def)
  next
    case TimerFires
    then show ?thesis using snoc by (simp add: run_snoc successes_snoc step_timer accepted_def)
  qed
qed

text \<open>
  C5, as the specification states it: highestBid changes only together with
  highestBidder, never one without the other. A bidder who outbids herself changes the
  first and not the second: after alice's 100, alice's 150 raises highestBid from 100 to
  150 and highestBidder is alice before and after.
\<close>

theorem self_outbid_keeps_bidder:
  "highestBid (step ovf_amd64 (init_auction 0) (BidReq (bid_request ''alice'' 100))) = 100
   \<and> highestBidder (step ovf_amd64 (init_auction 0) (BidReq (bid_request ''alice'' 100))) = ''alice''
   \<and> status (step ovf_amd64 (init_auction 0) (BidReq (bid_request ''alice'' 100))) = ''ongoing''
   \<and> highestBid (step ovf_amd64
         (step ovf_amd64 (init_auction 0) (BidReq (bid_request ''alice'' 100)))
         (BidReq (bid_request ''alice'' 150))) = 150
   \<and> highestBidder (step ovf_amd64
         (step ovf_amd64 (init_auction 0) (BidReq (bid_request ''alice'' 100)))
         (BidReq (bid_request ''alice'' 150))) = ''alice''"
proof -
  have s: "step ovf_amd64 (init_auction 0) (BidReq (bid_request ''alice'' 100)) =
     \<lparr> startTime = 0, duration = 100 * 1000000000, highestBid = 100,
       highestBidder = ''alice'', bidders = [''alice'' \<mapsto> 100], status = ''ongoing'' \<rparr>"
    unfolding step_bid_request alice_100 by simp
  have t: "fst (placeBid ovf_amd64
       \<lparr> startTime = 0, duration = 100 * 1000000000, highestBid = 100,
         highestBidder = ''alice'', bidders = [''alice'' \<mapsto> 100], status = ''ongoing'' \<rparr>
       ''alice'' 150) =
     \<lparr> startTime = 0, duration = 100 * 1000000000, highestBid = 150,
       highestBidder = ''alice'', bidders = [''alice'' \<mapsto> 150], status = ''ongoing'' \<rparr>"
    by (simp add: placeBid_def to_int_small)
  show ?thesis unfolding s unfolding step_bid_request t by simp
qed

text \<open>
  C5, amended: highestBid never decreases, across one operation and across any run;
  closing the auction keeps highestBid and highestBidder. highestBidder changes only
  together with highestBid: when it changes, highestBid has strictly risen. highestBid
  changes only in a step that accepts a bid; an accepted bid is strictly greater than the
  highestBid before it and the step writes both fields, the amount and the bidder of that
  bid (the bidder may be the one who was highest already); a step that accepts no bid
  keeps both. In every state reached from the initial one the two fields are 0 and the
  empty name when no bid was accepted, and otherwise the bidder and the amount of the most
  recent accepted bid.
\<close>

theorem highestBid_monotone:
  "highestBid a \<le> highestBid (step ovf a e)
   \<and> highestBid a \<le> highestBid (run ovf a es)
   \<and> highestBid (fst (endAuction a)) = highestBid a
   \<and> highestBidder (fst (endAuction a)) = highestBidder a
   \<and> (highestBidder (step ovf a e) \<noteq> highestBidder a \<longrightarrow> highestBid a < highestBid (step ovf a e))
   \<and> (highestBid (step ovf a e) \<noteq> highestBid a \<longrightarrow>
        accepted ovf a e = Some (highestBidder (step ovf a e), highestBid (step ovf a e)))
   \<and> (accepted ovf a e = None \<longrightarrow>
        highestBid (step ovf a e) = highestBid a \<and> highestBidder (step ovf a e) = highestBidder a)
   \<and> (accepted ovf a e = Some (n, v) \<longrightarrow>
        highestBid a < v \<and> highestBid (step ovf a e) = v \<and> highestBidder (step ovf a e) = n)
   \<and> (if successes ovf (init_auction t0) evs = []
       then highestBid (run ovf (init_auction t0) evs) = 0 \<and>
            highestBidder (run ovf (init_auction t0) evs) = []
       else last (successes ovf (init_auction t0) evs) =
              (highestBidder (run ovf (init_auction t0) evs),
               highestBid (run ovf (init_auction t0) evs)))"
proof (intro conjI)
  show "accepted ovf a e = Some (n, v) \<longrightarrow>
        highestBid a < v \<and> highestBid (step ovf a e) = v \<and> highestBidder (step ovf a e) = n"
  proof (cases e)
    case (BidReq r)
    then show ?thesis
      by (auto simp add: step_bid accepted_bid split: option.splits if_splits)
  next
    case (QueryReq now r)
    then show ?thesis by (simp add: accepted_def)
  next
    case TimerFires
    then show ?thesis by (simp add: accepted_def)
  qed
  show "if successes ovf (init_auction t0) evs = []
       then highestBid (run ovf (init_auction t0) evs) = 0 \<and>
            highestBidder (run ovf (init_auction t0) evs) = []
       else last (successes ovf (init_auction t0) evs) =
              (highestBidder (run ovf (init_auction t0) evs),
               highestBid (run ovf (init_auction t0) evs))"
    by (rule highest_is_last_accepted)
  show "highestBid a \<le> highestBid (step ovf a e)" by (rule step_highestBid_mono)
  show "highestBid a \<le> highestBid (run ovf a es)" by (rule run_highestBid_mono)
  show "highestBid (fst (endAuction a)) = highestBid a" by (simp add: endAuction_def)
  show "highestBidder (fst (endAuction a)) = highestBidder a" by (simp add: endAuction_def)
  show "highestBidder (step ovf a e) \<noteq> highestBidder a \<longrightarrow> highestBid a < highestBid (step ovf a e)"
    by (cases e) (auto simp add: step_bid step_query step_timer split: option.splits if_splits)
  show "highestBid (step ovf a e) \<noteq> highestBid a \<longrightarrow>
        accepted ovf a e = Some (highestBidder (step ovf a e), highestBid (step ovf a e))"
    by (cases e) (auto simp add: step_bid step_query step_timer accepted_bid split: option.splits if_splits)
  show "accepted ovf a e = None \<longrightarrow>
        highestBid (step ovf a e) = highestBid a \<and> highestBidder (step ovf a e) = highestBidder a"
    by (cases e) (auto simp add: step_bid step_query step_timer accepted_bid split: option.splits if_splits)
qed

theorem highestBid_monotone_witness:
  "highestBid (step ovf_amd64 (init_auction 0) (BidReq (bid_request ''alice'' 100))) = 100
   \<and> highestBidder (step ovf_amd64 (init_auction 0) (BidReq (bid_request ''alice'' 100))) = ''alice''
   \<and> accepted ovf_amd64 (init_auction 0) (BidReq (bid_request ''alice'' 100)) = Some (''alice'', 100)
   \<and> accepted ovf_amd64 (init_auction 0) (BidReq (bid_request ''bob'' 0)) = None
   \<and> highestBid (step ovf_amd64 (init_auction 0) (BidReq (bid_request ''bob'' 0))) = 0
   \<and> highestBidder (step ovf_amd64 (init_auction 0) (BidReq (bid_request ''bob'' 0))) = []"
proof -
  have s: "step ovf_amd64 (init_auction 0) (BidReq (bid_request ''alice'' 100)) =
     \<lparr> startTime = 0, duration = 100 * 1000000000, highestBid = 100,
       highestBidder = ''alice'', bidders = [''alice'' \<mapsto> 100], status = ''ongoing'' \<rparr>"
    unfolding step_bid_request alice_100 by simp
  have i: "highestBid (init_auction 0) = 0" "highestBidder (init_auction 0) = []"
    "status (init_auction 0) = ''ongoing''"
    by (simp_all add: init_auction_def)
  from highestBid_monotone[of "init_auction 0" ovf_amd64 "BidReq (bid_request ''alice'' 100)" "[]"]
       highestBid_monotone[of "init_auction 0" ovf_amd64 "BidReq (bid_request ''bob'' 0)" "[]"]
  show ?thesis unfolding s by (simp add: accepted_bid_request to_int_small i)
qed

section \<open>Closing the auction (C6)\<close>

text \<open>
  C6: endAuction leaves the status "ended"; running it a second time gives the same
  state as running it once, and on an ended auction it changes nothing; it keeps
  highestBid, highestBidder and the bidders map; and once the status is "ended" no
  operation and no run of operations makes it anything else.
\<close>

theorem close_idempotent:
  "status (fst (endAuction a)) = ''ended''
   \<and> fst (endAuction (fst (endAuction a))) = fst (endAuction a)
   \<and> highestBid (fst (endAuction a)) = highestBid a
   \<and> highestBidder (fst (endAuction a)) = highestBidder a
   \<and> bidders (fst (endAuction a)) = bidders a
   \<and> (status a = ''ended'' \<longrightarrow> fst (endAuction a) = a)
   \<and> (status a = ''ended'' \<longrightarrow> status (step ovf a e) = ''ended'')
   \<and> (status a = ''ended'' \<longrightarrow> status (run ovf a es) = ''ended'')"
  by (simp add: endAuction_def step_ended run_ended)

theorem close_idempotent_witness:
  "status ((init_auction 0)\<lparr>status := ''ended''\<rparr>) = ''ended''
   \<and> fst (endAuction ((init_auction 0)\<lparr>status := ''ended''\<rparr>)) = (init_auction 0)\<lparr>status := ''ended''\<rparr>
   \<and> status (step ovf_amd64 ((init_auction 0)\<lparr>status := ''ended''\<rparr>) (BidReq (bid_request ''alice'' 100)))
       = ''ended''
   \<and> status (run ovf_amd64 ((init_auction 0)\<lparr>status := ''ended''\<rparr>)
               [BidReq (bid_request ''alice'' 100), TimerFires, QueryReq 5 \<lparr>Method = ''GET'', body = None\<rparr>])
       = ''ended''"
  using close_idempotent[of "(init_auction 0)\<lparr>status := ''ended''\<rparr>" ovf_amd64
          "BidReq (bid_request ''alice'' 100)"
          "[BidReq (bid_request ''alice'' 100), TimerFires, QueryReq 5 \<lparr>Method = ''GET'', body = None\<rparr>]"]
  by simp

section \<open>The coordinator asks the replicas in order (C7)\<close>

lemma length_answers: "length (answers get w rs) = length rs"
  by (induction rs arbitrary: w) (simp_all split: prod.splits)

lemma queryFromReplica_call:
  "queryFromReplica get w r = (res, call, w1) \<Longrightarrow> call = (r @ ''/query'', query_timeout)"
  by (auto simp add: queryFromReplica_def split: prod.splits)

lemma query_loop_shape:
  "query_loop get w rs = (ls, calls, w') \<Longrightarrow>
   calls = map (\<lambda>r. (r @ ''/query'', query_timeout))
             (take (Suc (length (takeWhile isl (answers get w rs)))) rs)
   \<and> ls = map (\<lambda>(r, x). LogQueryError r (projl x))
             (zip (take (length (takeWhile isl (answers get w rs))) rs) (answers get w rs))
          @ [if length (takeWhile isl (answers get w rs)) < length rs
             then LogData (rs ! length (takeWhile isl (answers get w rs)))
                    (projr (answers get w rs ! length (takeWhile isl (answers get w rs))))
             else LogQueryAllFailed]"
proof (induction rs arbitrary: w ls calls w')
  case Nil
  then show ?case by simp
next
  case (Cons r rs)
  obtain res call w1 where q: "queryFromReplica get w r = (res, call, w1)"
    by (cases "queryFromReplica get w r") auto
  have call: "call = (r @ ''/query'', query_timeout)" using queryFromReplica_call[OF q] .
  show ?case
  proof (cases res)
    case (Inl err)
    obtain ls1 calls1 w2 where l: "query_loop get w1 rs = (ls1, calls1, w2)"
      by (cases "query_loop get w1 rs") auto
    have eq: "ls = LogQueryError r err # ls1" "calls = call # calls1"
      using Cons.prems q Inl l by simp_all
    show ?thesis using Cons.IH[OF l] eq q Inl call by simp
  next
    case (Inr d)
    then show ?thesis using Cons.prems q call by simp
  qed
qed

lemma takeWhile_isl_nth:
  "length (takeWhile isl xs) < length xs \<Longrightarrow> \<exists>d. xs ! length (takeWhile isl xs) = Inr d"
proof -
  assume "length (takeWhile isl xs) < length xs"
  then have "\<not> isl (xs ! length (takeWhile isl xs))" by (rule nth_length_takeWhile)
  then show ?thesis by (cases "xs ! length (takeWhile isl xs)") auto
qed

text \<open>
  C7: query issues its GETs to the replicas in the configured order, each to the
  replica's /query address with the timeout of two seconds, and stops after the first
  replica that answers: with k the number of leading replicas that fail, the GETs go to
  the first k + 1 replicas, each failure is logged, and the last log line carries the body
  of replica k as it was read. A replica answers when the GET returns status 200 with a
  readable body. When every replica fails, all of them were asked, the last log line is
  the total failure and no data line is logged.
\<close>

theorem query_first_success:
  assumes "query c get w = (ls, calls, w')"
  shows "(let as = answers get w (replicas c); k = length (takeWhile isl as) in
            calls = map (\<lambda>r. (r @ ''/query'', query_timeout)) (take (Suc k) (replicas c))
          \<and> ls = map (\<lambda>(r, x). LogQueryError r (projl x)) (zip (take k (replicas c)) as)
                 @ [if k < length (replicas c) then LogData (replicas c ! k) (projr (as ! k))
                    else LogQueryAllFailed]
          \<and> (k < length (replicas c) \<longrightarrow> (\<exists>d. as ! k = Inr d \<and> last ls = LogData (replicas c ! k) d))
          \<and> (list_all isl as \<longrightarrow>
                calls = map (\<lambda>r. (r @ ''/query'', query_timeout)) (replicas c)
              \<and> last ls = LogQueryAllFailed \<and> (\<forall>r d. LogData r d \<notin> set ls)))
       \<and> query_timeout = 2 * 1000000000
       \<and> (fst (queryFromReplica get w r) = Inr d
            \<longleftrightarrow> fst (get w query_timeout (r @ ''/query'')) = GetReply 200 (Some d))"
proof -
  define as where "as = answers get w (replicas c)"
  define k where "k = length (takeWhile isl as)"
  have len: "length as = length (replicas c)" by (simp add: as_def length_answers)
  have shape:
    "calls = map (\<lambda>r. (r @ ''/query'', query_timeout)) (take (Suc k) (replicas c))"
    "ls = map (\<lambda>(r, x). LogQueryError r (projl x)) (zip (take k (replicas c)) as)
                 @ [if k < length (replicas c) then LogData (replicas c ! k) (projr (as ! k))
                    else LogQueryAllFailed]"
    using query_loop_shape[of get w "replicas c" ls calls w'] assms
    by (simp_all add: query_def as_def k_def)
  have first: "k < length (replicas c) \<longrightarrow> (\<exists>d. as ! k = Inr d \<and> last ls = LogData (replicas c ! k) d)"
  proof
    assume lt: "k < length (replicas c)"
    then obtain d where d: "as ! k = Inr d"
      using takeWhile_isl_nth[of as] len by (auto simp add: k_def)
    then show "\<exists>d. as ! k = Inr d \<and> last ls = LogData (replicas c ! k) d"
      using shape(2) lt by simp
  qed
  have none: "list_all isl as \<longrightarrow>
                calls = map (\<lambda>r. (r @ ''/query'', query_timeout)) (replicas c)
              \<and> last ls = LogQueryAllFailed \<and> (\<forall>r d. LogData r d \<notin> set ls)"
  proof
    assume "list_all isl as"
    then have "takeWhile isl as = as" by (simp add: list_all_iff)
    then have "k = length as" unfolding k_def by (rule arg_cong)
    then have k: "k = length (replicas c)" using len by simp
    show "calls = map (\<lambda>r. (r @ ''/query'', query_timeout)) (replicas c)
              \<and> last ls = LogQueryAllFailed \<and> (\<forall>r d. LogData r d \<notin> set ls)"
      using shape k by auto
  qed
  have succ: "fst (queryFromReplica get w r) = Inr d
            \<longleftrightarrow> fst (get w query_timeout (r @ ''/query'')) = GetReply 200 (Some d)"
    by (auto simp add: queryFromReplica_def split: prod.splits get_outcome.splits option.splits if_splits)
  show ?thesis
    using shape first none succ unfolding Let_def as_def[symmetric] k_def[symmetric]
    by (simp add: query_timeout_def)
qed

theorem query_first_success_witness:
  "query \<lparr>replicas = [''http://localhost:8080'', ''http://localhost:8081'']\<rparr>
     (\<lambda>w t url. if url = ''http://localhost:8080/query'' then (GetFailed, Suc w)
                 else (GetReply 200 (Some ''data''), Suc w)) (0::nat)
     = ([LogQueryError ''http://localhost:8080'' ConnectError, LogData ''http://localhost:8081'' ''data''],
        [(''http://localhost:8080/query'', 2000000000), (''http://localhost:8081/query'', 2000000000)],
        2)
   \<and> answers (\<lambda>w t url. if url = ''http://localhost:8080/query'' then (GetFailed, Suc w)
                 else (GetReply 200 (Some ''data''), Suc w)) (0::nat)
        [''http://localhost:8080'', ''http://localhost:8081''] = [Inl ConnectError, Inr ''data'']
   \<and> query \<lparr>replicas = [''http://localhost:8080'', ''http://localhost:8081'']\<rparr>
     (\<lambda>w t url. (GetReply 200 (Some ''data''), Suc w)) (0::nat)
     = ([LogData ''http://localhost:8080'' ''data''], [(''http://localhost:8080/query'', 2000000000)], 1)
   \<and> query \<lparr>replicas = [''http://localhost:8080'', ''http://localhost:8081'']\<rparr>
     (\<lambda>w t url. if url = ''http://localhost:8080/query'' then (GetFailed, Suc w)
                 else (GetReply 500 (Some ''busy''), Suc w)) (0::nat)
     = ([LogQueryError ''http://localhost:8080'' ConnectError,
         LogQueryError ''http://localhost:8081'' (StatusError 500), LogQueryAllFailed],
        [(''http://localhost:8080/query'', 2000000000), (''http://localhost:8081/query'', 2000000000)],
        2)
   \<and> list_all isl (answers (\<lambda>w t url. if url = ''http://localhost:8080/query'' then (GetFailed, Suc w)
                 else (GetReply 500 (Some ''busy''), Suc w)) (0::nat)
        [''http://localhost:8080'', ''http://localhost:8081''])"
proof -
  have 1: "query \<lparr>replicas = [''http://localhost:8080'', ''http://localhost:8081'']\<rparr>
     (\<lambda>w t url. if url = ''http://localhost:8080/query'' then (GetFailed, Suc w)
                 else (GetReply 200 (Some ''data''), Suc w)) (0::nat)
     = ([LogQueryError ''http://localhost:8080'' ConnectError, LogData ''http://localhost:8081'' ''data''],
        [(''http://localhost:8080/query'', 2000000000), (''http://localhost:8081/query'', 2000000000)],
        2)"
    by (simp add: query_def queryFromReplica_def query_timeout_def)
  have 2: "query \<lparr>replicas = [''http://localhost:8080'', ''http://localhost:8081'']\<rparr>
     (\<lambda>w t url. (GetReply 200 (Some ''data''), Suc w)) (0::nat)
     = ([LogData ''http://localhost:8080'' ''data''], [(''http://localhost:8080/query'', 2000000000)], 1)"
    by (simp add: query_def queryFromReplica_def query_timeout_def)
  have 3: "query \<lparr>replicas = [''http://localhost:8080'', ''http://localhost:8081'']\<rparr>
     (\<lambda>w t url. if url = ''http://localhost:8080/query'' then (GetFailed, Suc w)
                 else (GetReply 500 (Some ''busy''), Suc w)) (0::nat)
     = ([LogQueryError ''http://localhost:8080'' ConnectError,
         LogQueryError ''http://localhost:8081'' (StatusError 500), LogQueryAllFailed],
        [(''http://localhost:8080/query'', 2000000000), (''http://localhost:8081/query'', 2000000000)],
        2)"
    by (simp add: query_def queryFromReplica_def query_timeout_def)
  have 4: "answers (\<lambda>w t url. if url = ''http://localhost:8080/query'' then (GetFailed, Suc w)
                 else (GetReply 200 (Some ''data''), Suc w)) (0::nat)
        [''http://localhost:8080'', ''http://localhost:8081''] = [Inl ConnectError, Inr ''data'']"
    by (simp add: queryFromReplica_def)
  have 5: "list_all isl (answers (\<lambda>w t url. if url = ''http://localhost:8080/query'' then (GetFailed, Suc w)
                 else (GetReply 500 (Some ''busy''), Suc w)) (0::nat)
        [''http://localhost:8080'', ''http://localhost:8081''])"
    by (simp add: queryFromReplica_def)
  from query_first_success[OF 1] query_first_success[OF 2] query_first_success[OF 3] 1 2 3 4 5
  show ?thesis by blast
qed

section \<open>The coordinator sends a bid to every replica (C8)\<close>

lemma length_post_answers: "length (post_answers post w rs b) = length rs"
  by (induction rs arbitrary: w) (simp_all split: prod.splits)

lemma bid_loop_shape:
  "bid_loop post w rs b = (ls, calls, w') \<Longrightarrow>
   calls = map (\<lambda>r. (r @ ''/bid'', b)) rs
   \<and> ls = concat (map (\<lambda>(r, out). bid_reply_log r out) (zip rs (post_answers post w rs b)))"
proof (induction rs arbitrary: w ls calls w')
  case Nil
  then show ?case by simp
next
  case (Cons r rs)
  obtain out w1 where p: "post w (r @ ''/bid'') b = (out, w1)"
    by (cases "post w (r @ ''/bid'') b") auto
  obtain ls1 calls1 w2 where l: "bid_loop post w1 rs b = (ls1, calls1, w2)"
    by (cases "bid_loop post w1 rs b") auto
  have "ls = bid_reply_log r out @ ls1" "calls = (r @ ''/bid'', b) # calls1"
    using Cons.prems p l by simp_all
  then show ?case using Cons.IH[OF l] p by simp
qed

lemma reply_log_in_concat:
  assumes "i < length rs" "length outs = length rs" "x \<in> set (bid_reply_log (rs ! i) (outs ! i))"
  shows "x \<in> set (concat (map (\<lambda>(r, out). bid_reply_log r out) (zip rs outs)))"
proof -
  have "(rs ! i, outs ! i) \<in> set (zip rs outs)"
    using assms(1,2) by (metis in_set_zip fst_conv snd_conv)
  then show ?thesis using assms(3) by auto
qed

text \<open>
  C8: bid posts the same body to the /bid address of every configured replica, in order,
  whatever the replicas answer; a transport failure and an undecodable reply are each
  logged for their replica, and the loop goes on; the log is the per-replica lines followed
  by the completion line, and nothing else is computed from the replies.
\<close>

theorem bid_broadcast:
  assumes "bid c post w name amount = (ls, calls, w')"
  shows "(let b = [''name'' \<mapsto> JStr name, ''amount'' \<mapsto> JNum (of_int amount)];
              outs = post_answers post w (replicas c) b in
            calls = map (\<lambda>r. (r @ ''/bid'', b)) (replicas c)
          \<and> ls = concat (map (\<lambda>(r, out). bid_reply_log r out) (zip (replicas c) outs))
                 @ [LogBidCompleted]
          \<and> (\<forall>i<length (replicas c).
                (outs ! i = PostFailed \<longrightarrow> LogSendError (replicas c ! i) \<in> set ls)
              \<and> (outs ! i = ReplyUndecodable \<longrightarrow> LogDecodeError (replicas c ! i) \<in> set ls)))"
proof -
  define b where "b = [''name'' \<mapsto> JStr name, ''amount'' \<mapsto> JNum (of_int amount)]"
  define outs where "outs = post_answers post w (replicas c) b"
  obtain ls1 where l: "bid_loop post w (replicas c) b = (ls1, calls, w')" "ls = ls1 @ [LogBidCompleted]"
    using assms by (auto simp add: bid_def b_def split: prod.splits)
  have shape: "calls = map (\<lambda>r. (r @ ''/bid'', b)) (replicas c)"
    "ls1 = concat (map (\<lambda>(r, out). bid_reply_log r out) (zip (replicas c) outs))"
    using bid_loop_shape[OF l(1)] by (simp_all add: outs_def)
  have len: "length outs = length (replicas c)" by (simp add: outs_def length_post_answers)
  have logged: "\<forall>i<length (replicas c).
                (outs ! i = PostFailed \<longrightarrow> LogSendError (replicas c ! i) \<in> set ls)
              \<and> (outs ! i = ReplyUndecodable \<longrightarrow> LogDecodeError (replicas c ! i) \<in> set ls)"
  proof (intro allI impI conjI)
    fix i assume i: "i < length (replicas c)" and o: "outs ! i = PostFailed"
    have "LogSendError (replicas c ! i) \<in> set (bid_reply_log (replicas c ! i) (outs ! i))"
      using o by (simp add: bid_reply_log_def)
    then show "LogSendError (replicas c ! i) \<in> set ls"
      using reply_log_in_concat[OF i len] shape(2) l(2) by simp
  next
    fix i assume i: "i < length (replicas c)" and o: "outs ! i = ReplyUndecodable"
    have "LogDecodeError (replicas c ! i) \<in> set (bid_reply_log (replicas c ! i) (outs ! i))"
      using o by (simp add: bid_reply_log_def)
    then show "LogDecodeError (replicas c ! i) \<in> set ls"
      using reply_log_in_concat[OF i len] shape(2) l(2) by simp
  qed
  show ?thesis
    using shape l(2) logged unfolding Let_def b_def[symmetric] outs_def[symmetric] by simp
qed

theorem bid_broadcast_witness:
  "bid \<lparr>replicas = [''http://localhost:8080'', ''http://localhost:8081'']\<rparr>
     (\<lambda>w url b. if url = ''http://localhost:8080/bid'' then (PostFailed, Suc w)
                 else (ReplyDecoded [''outcome'' \<mapsto> JStr ''success''], Suc w)) (0::nat) ''carol'' 200
     = ([LogSendError ''http://localhost:8080'', LogBidCompleted],
        [(''http://localhost:8080/bid'', [''name'' \<mapsto> JStr ''carol'', ''amount'' \<mapsto> JNum 200]),
         (''http://localhost:8081/bid'', [''name'' \<mapsto> JStr ''carol'', ''amount'' \<mapsto> JNum 200])],
        2)
   \<and> post_answers (\<lambda>w url b. if url = ''http://localhost:8080/bid'' then (PostFailed, Suc w)
                 else (ReplyDecoded [''outcome'' \<mapsto> JStr ''success''], Suc w)) (0::nat)
        [''http://localhost:8080'', ''http://localhost:8081'']
        [''name'' \<mapsto> JStr ''carol'', ''amount'' \<mapsto> JNum 200]
     = [PostFailed, ReplyDecoded [''outcome'' \<mapsto> JStr ''success'']]"
proof -
  have 1: "bid \<lparr>replicas = [''http://localhost:8080'', ''http://localhost:8081'']\<rparr>
     (\<lambda>w url b. if url = ''http://localhost:8080/bid'' then (PostFailed, Suc w)
                 else (ReplyDecoded [''outcome'' \<mapsto> JStr ''success''], Suc w)) (0::nat) ''carol'' 200
     = ([LogSendError ''http://localhost:8080'', LogBidCompleted],
        [(''http://localhost:8080/bid'', [''name'' \<mapsto> JStr ''carol'', ''amount'' \<mapsto> JNum 200]),
         (''http://localhost:8081/bid'', [''name'' \<mapsto> JStr ''carol'', ''amount'' \<mapsto> JNum 200])],
        2)"
    by (simp add: bid_def bid_reply_log_def)
  have 2: "post_answers (\<lambda>w url b. if url = ''http://localhost:8080/bid'' then (PostFailed, Suc w)
                 else (ReplyDecoded [''outcome'' \<mapsto> JStr ''success''], Suc w)) (0::nat)
        [''http://localhost:8080'', ''http://localhost:8081'']
        [''name'' \<mapsto> JStr ''carol'', ''amount'' \<mapsto> JNum 200]
     = [PostFailed, ReplyDecoded [''outcome'' \<mapsto> JStr ''success'']]"
    by simp
  from bid_broadcast[OF 1] 1 2 show ?thesis by blast
qed

section \<open>Malformed requests (C9)\<close>

text \<open>
  C9: a request to /bid that is not a POST is answered 405; a POST to /bid whose body
  did not decode, or decoded without a string under "name" or without a number under
  "amount", is answered 400; a request to /query that is not a GET is answered 405. In
  each case the auction state is the one before the request.
\<close>

theorem malformed_rejected:
  "(Method r \<noteq> ''POST'' \<longrightarrow>
      fst (handleBid ovf a r) = a \<and> code (fst (snd (handleBid ovf a r))) = 405)
   \<and> (Method r = ''POST'' \<and>
       (body r = None \<or>
        (\<exists>m. body r = Some m \<and>
           ((\<nexists>s. m ''name'' = Some (JStr s)) \<or> (\<nexists>x. m ''amount'' = Some (JNum x))))) \<longrightarrow>
      fst (handleBid ovf a r) = a \<and> code (fst (snd (handleBid ovf a r))) = 400)
   \<and> (Method q \<noteq> ''GET'' \<longrightarrow>
      fst (handleQuery a now q) = a \<and> code (fst (snd (handleQuery a now q))) = 405)"
  by (auto simp add: handleBid_def handleQuery_def http_error_def split: option.splits json.splits)

theorem malformed_rejected_witness:
  "code (fst (snd (handleBid ovf_amd64 (init_auction 0) \<lparr>Method = ''GET'', body = None\<rparr>))) = 405
   \<and> fst (handleBid ovf_amd64 (init_auction 0) \<lparr>Method = ''GET'', body = None\<rparr>) = init_auction 0
   \<and> code (fst (snd (handleBid ovf_amd64 (init_auction 0) \<lparr>Method = ''POST'', body = None\<rparr>))) = 400
   \<and> fst (handleBid ovf_amd64 (init_auction 0) \<lparr>Method = ''POST'', body = None\<rparr>) = init_auction 0
   \<and> code (fst (snd (handleBid ovf_amd64 (init_auction 0)
        \<lparr>Method = ''POST'', body = Some [''name'' \<mapsto> JStr ''bob'', ''amount'' \<mapsto> JStr ''ten'']\<rparr>))) = 400
   \<and> fst (handleBid ovf_amd64 (init_auction 0)
        \<lparr>Method = ''POST'', body = Some [''name'' \<mapsto> JStr ''bob'', ''amount'' \<mapsto> JStr ''ten'']\<rparr>)
       = init_auction 0
   \<and> code (fst (snd (handleQuery (init_auction 0) 5 \<lparr>Method = ''POST'', body = None\<rparr>))) = 405
   \<and> fst (handleQuery (init_auction 0) 5 \<lparr>Method = ''POST'', body = None\<rparr>) = init_auction 0"
  using malformed_rejected[where r = "\<lparr>Method = ''GET'', body = None\<rparr>" and ovf = ovf_amd64
          and a = "init_auction 0" and q = "\<lparr>Method = ''POST'', body = None\<rparr>" and now = 5]
        malformed_rejected[where r = "\<lparr>Method = ''POST'', body = None\<rparr>" and ovf = ovf_amd64
          and a = "init_auction 0"]
        malformed_rejected[where r = "\<lparr>Method = ''POST'',
             body = Some [''name'' \<mapsto> JStr ''bob'', ''amount'' \<mapsto> JStr ''ten'']\<rparr>" and ovf = ovf_amd64
          and a = "init_auction 0"]
  by simp

section \<open>The failure branch of the coordinator (C10)\<close>

text \<open>
  C10: the reply of PlaceBid is a JSON object for which the coordinator logs nothing:
  none for "success", none for "fail" with its reason, none for "auction ended". The
  coordinator's failure line is logged exactly when the reason field is the string
  "fail", which no reply of a replica carries, so a rejection looks like an acceptance.
\<close>

theorem failure_branch_dead:
  "(\<exists>m. payload (fst (snd (placeBid ovf a name amount))) = JsonBody m
        \<and> bid_reply_log replica (ReplyDecoded m) = [])
   \<and> bid_reply_log replica (ReplyDecoded [''outcome'' \<mapsto> JStr ''success'']) = []
   \<and> bid_reply_log replica
        (ReplyDecoded [''outcome'' \<mapsto> JStr ''fail'',
                       ''reason'' \<mapsto> JStr ''bid must be higher than current highest bid'']) = []
   \<and> bid_reply_log replica (ReplyDecoded [''outcome'' \<mapsto> JStr ''auction ended'']) = []
   \<and> (bid_reply_log replica (ReplyDecoded m') \<noteq> [] \<longleftrightarrow> m' ''reason'' = Some (JStr ''fail''))"
  by (auto simp add: placeBid_def json_ok_def bid_reply_log_def Let_def split: option.splits json.splits)

theorem failure_branch_dead_witness:
  "payload (fst (snd (placeBid ovf_amd64 (init_auction 0) ''bob'' 0)))
     = JsonBody [''outcome'' \<mapsto> JStr ''fail'',
                 ''reason'' \<mapsto> JStr ''bid must be higher than current highest bid'']
   \<and> bid_reply_log ''http://localhost:8080''
        (ReplyDecoded [''outcome'' \<mapsto> JStr ''fail'',
                       ''reason'' \<mapsto> JStr ''bid must be higher than current highest bid'']) = []
   \<and> bid_reply_log ''http://localhost:8080'' (ReplyDecoded [''reason'' \<mapsto> JStr ''fail''])
       = [LogReplicaFailure ''http://localhost:8080'' [''reason'' \<mapsto> JStr ''fail'']]"
  using failure_branch_dead[of ovf_amd64 "init_auction 0" "''bob''" 0 "''http://localhost:8080''"
          "[''reason'' \<mapsto> JStr ''fail'']"]
  by (simp add: placeBid_def init_auction_def json_ok_def to_int_small bid_reply_log_def)

end
